theory Spec2Isabelle
  imports Complex_Main "HOL-Library.Sublist" "HOL-Library.Multiset"
begin

section \<open>Python values and exceptions\<close>

text \<open>
  The exceptions the program can meet, as values. \<open>ProviderError\<close> stands for whatever the
  text-generation client raises, \<open>RequestError\<close> for what \<open>requests.get\<close> raises when the
  places service cannot be reached, \<open>JSONDecodeError\<close> for a body that is not JSON,
  \<open>HTTPException\<close> for the framework's own errors with their status (a request without
  a JSON body).
\<close>

datatype py_error =
    ValueError
  | IndexError
  | KeyError
  | TypeError
  | AttributeError
  | JSONDecodeError
  | RequestError
  | HTTPException nat
  | ProviderError string

section \<open>The random source\<close>

text \<open>
  Python's module-level generator is hidden global state. Here it is explicit: an infinite
  sequence of raw draws and a cursor into it. Every primitive reads the draw under the
  cursor and advances the cursor; nothing is assumed about the sequence.
\<close>

record rng =
  draws :: "nat \<Rightarrow> nat"
  cursor :: nat

definition next_draw :: "rng \<Rightarrow> nat \<times> rng" where
  "next_draw g = (draws g (cursor g), g\<lparr>cursor := Suc (cursor g)\<rparr>)"

text \<open>\<open>_randbelow(n)\<close>: an integer in \<open>[0, n)\<close>; the library only calls it with \<open>n > 0\<close>.\<close>

definition randbelow :: "nat \<Rightarrow> rng \<Rightarrow> nat \<times> rng" where
  "randbelow n g = (let (r, g') = next_draw g in (r mod n, g'))"

text \<open>
  \<open>random()\<close>: a float \<open>m / 2^53\<close> with \<open>0 \<le> m < 2^53\<close>, kept as an exact rational.
\<close>

definition random_float :: "rng \<Rightarrow> rat \<times> rng" where
  "random_float g = (let (r, g') = next_draw g in (of_nat (r mod 2 ^ 53) / 2 ^ 53, g'))"

text \<open>A source that replays a finite list of draws and then yields zeros.\<close>

definition replay :: "nat list \<Rightarrow> rng" where
  "replay ds = \<lparr>draws = (\<lambda>i. if i < length ds then ds ! i else 0), cursor = 0\<rparr>"

section \<open>Library routines the program calls\<close>

subsection \<open>\<open>random.sample\<close>\<close>

text \<open>
  \<open>random.sample(population, k)\<close> raises \<open>ValueError\<close> unless \<open>0 \<le> k \<le> len(population)\<close>.
  Otherwise it returns the entries at \<open>k\<close> different positions of the population, in
  the order the random source selects them. The model realises this the way CPython does
  for populations of at most 21 entries (the backend list of this program has 12): it
  copies the population into a pool and, \<open>k\<close> times, draws a position \<open>j\<close> below the
  number of entries still unselected, takes \<open>pool[j]\<close> and moves the last unselected
  entry into the vacancy:
  \<^verbatim>\<open>
    pool = list(population)
    for i in range(k):
        j = randbelow(n - i)
        result[i] = pool[j]
        pool[j] = pool[n - i - 1]
  \<close>
  For \<open>k = 2\<close> the results of the model over all random sources are exactly the pairs of
  entries at two different positions (lemmas \<open>sample_two_positions\<close> and
  \<open>sample_two_reaches\<close> below), for a population of any length.
\<close>

fun sample_pool :: "'a list \<Rightarrow> nat \<Rightarrow> nat \<Rightarrow> rng \<Rightarrow> 'a list \<times> rng" where
  "sample_pool pool m 0 g = ([], g)"
| "sample_pool pool m (Suc k) g =
     (let (j, g1) = randbelow m g;
          (rest, g2) = sample_pool (pool[j := pool ! (m - 1)]) (m - 1) k g1
      in (pool ! j # rest, g2))"

definition sample :: "'a list \<Rightarrow> int \<Rightarrow> rng \<Rightarrow> py_error + 'a list \<times> rng" where
  "sample population k g =
     (let n = length population in
      if \<not> (0 \<le> k \<and> k \<le> int n) then Inl ValueError
      else Inr (sample_pool population n (nat k) g))"

subsection \<open>\<open>random.choices\<close> with weights\<close>

text \<open>\<open>itertools.accumulate\<close>: the running sums of the weights.\<close>

fun accumulate_from :: "int \<Rightarrow> int list \<Rightarrow> int list" where
  "accumulate_from acc [] = []"
| "accumulate_from acc (w # ws) = (acc + w) # accumulate_from (acc + w) ws"

definition accumulate :: "int list \<Rightarrow> int list" where
  "accumulate ws = accumulate_from 0 ws"

text \<open>
  \<open>bisect.bisect_right(a, x, lo, hi)\<close>:
  \<^verbatim>\<open>
    while lo < hi:
        mid = (lo + hi) // 2
        if x < a[mid]: hi = mid
        else: lo = mid + 1
    return lo
  \<close>
\<close>

function bisect :: "int list \<Rightarrow> rat \<Rightarrow> nat \<Rightarrow> nat \<Rightarrow> nat" where
  "bisect a x lo hi =
     (if lo < hi then
        (let mid = (lo + hi) div 2 in
         if x < of_int (a ! mid) then bisect a x lo mid else bisect a x (mid + 1) hi)
      else lo)"
  by pat_completeness auto
termination
  by (relation "measure (\<lambda>(a, x, lo, hi). hi - lo)") auto

declare bisect.simps [simp del]

text \<open>
  \<open>random.choices(population, weights=weights, k=k)\<close>:
  \<^verbatim>\<open>
    n = len(population)
    cum_weights = list(accumulate(weights))
    if len(cum_weights) != n: raise ValueError
    total = cum_weights[-1] + 0.0          # IndexError on an empty table
    if total <= 0.0: raise ValueError
    hi = n - 1
    return [population[bisect(cum_weights, random() * total, 0, hi)]
            for i in repeat(None, k)]
  \<close>
  \<open>repeat(None, k)\<close> is empty for a negative \<open>k\<close>. The weights are integers, and the
  product \<open>random() * total\<close> is taken exactly rather than rounded to a float.
\<close>

fun choices_draw ::
  "'a list \<Rightarrow> int list \<Rightarrow> int \<Rightarrow> nat \<Rightarrow> nat \<Rightarrow> rng \<Rightarrow> 'a list \<times> rng" where
  "choices_draw population cum_weights tot hi 0 g = ([], g)"
| "choices_draw population cum_weights tot hi (Suc k) g =
     (let (u, g1) = random_float g;
          i = bisect cum_weights (u * of_int tot) 0 hi;
          (rest, g2) = choices_draw population cum_weights tot hi k g1
      in (population ! i # rest, g2))"

definition choices ::
  "'a list \<Rightarrow> int list \<Rightarrow> int \<Rightarrow> rng \<Rightarrow> py_error + 'a list \<times> rng" where
  "choices population weights k g =
     (let n = length population;
          cum_weights = accumulate weights
      in if length cum_weights \<noteq> n then Inl ValueError
         else if cum_weights = [] then Inl IndexError
         else let tot = last cum_weights
              in if tot \<le> 0 then Inl ValueError
                 else Inr (choices_draw population cum_weights tot (n - 1) (nat k) g))"

subsection \<open>\<open>random.shuffle\<close>\<close>

text \<open>
  \<^verbatim>\<open>
    for i in reversed(range(1, len(x))):
        j = randbelow(i + 1)
        x[i], x[j] = x[j], x[i]
  \<close>
  \<open>shuffle_from i\<close> runs the loop from index \<open>i\<close> down to 1.
\<close>

fun shuffle_from :: "nat \<Rightarrow> 'a list \<Rightarrow> rng \<Rightarrow> 'a list \<times> rng" where
  "shuffle_from 0 x g = (x, g)"
| "shuffle_from (Suc i) x g =
     (let (j, g1) = randbelow (Suc i + 1) g
      in shuffle_from i (x[Suc i := x ! j, j := x ! Suc i]) g1)"

definition shuffle :: "'a list \<Rightarrow> rng \<Rightarrow> 'a list \<times> rng" where
  "shuffle x g = shuffle_from (length x - 1) x g"

subsection \<open>\<open>str.join\<close>\<close>

fun join :: "string \<Rightarrow> string list \<Rightarrow> string" where
  "join sep [] = []"
| "join sep [x] = x"
| "join sep (x # y # ys) = x @ sep @ join sep (y # ys)"

section \<open>The keyword table\<close>

record seo_keyword =
  word :: string
  weight :: int

record keyword_table =
  user_keywords :: "string list"
  backend_keywords :: "string list"
  seo_keywords :: "seo_keyword list"

definition RESTAURANT_NAME :: string where
  "RESTAURANT_NAME = ''Hari Krushna Dal Pakwan''"

definition RESTAURANT_ADDRESS :: string where
  "RESTAURANT_ADDRESS =
     ''24, Ambika Pinakal, Lajamni Chowk, Maruti Dham Society, Mota Varachha, Surat, Gujarat 394101''"

definition load_keywords :: keyword_table where
  "load_keywords = \<lparr>
     user_keywords = [
       ''delicious'', ''amazing'', ''fantastic'', ''excellent'', ''outstanding'',
       ''tasty'', ''authentic'', ''fresh'', ''crispy'', ''spicy'',
       ''flavorful'', ''traditional'', ''hygienic'', ''affordable'', ''quick service'',
       ''friendly staff'', ''clean'', ''homely'', ''perfect'', ''mouth-watering''],
     backend_keywords = [
       ''highly recommend'', ''great experience'', ''will visit again'', ''worth trying'',
       ''exceeded expectations'', ''perfect taste'', ''amazing quality'', ''best in surat'',
       ''authentic gujarati'', ''reasonable price'', ''excellent service'',
       ''fresh preparation''],
     seo_keywords = [
       \<lparr>word = ''dal pakwan'', weight = 10\<rparr>,
       \<lparr>word = ''gujarati food'', weight = 9\<rparr>,
       \<lparr>word = ''surat restaurant'', weight = 8\<rparr>,
       \<lparr>word = ''street food'', weight = 7\<rparr>,
       \<lparr>word = ''traditional'', weight = 6\<rparr>,
       \<lparr>word = ''authentic'', weight = 8\<rparr>,
       \<lparr>word = ''quality'', weight = 7\<rparr>,
       \<lparr>word = ''taste'', weight = 9\<rparr>,
       \<lparr>word = ''snacks'', weight = 5\<rparr>,
       \<lparr>word = ''mota varachha'', weight = 4\<rparr>]\<rparr>"

section \<open>Weighted selection and prompt composition\<close>

definition select_weighted_seo ::
  "seo_keyword list \<Rightarrow> int \<Rightarrow> rng \<Rightarrow> py_error + string list \<times> rng" where
  "select_weighted_seo seo cnt g =
     (let words = map word seo;
          weights = map weight seo
      in choices words weights cnt g)"

definition prompt_head :: string where
  "prompt_head =
     ''You'' @ [CHR 0x27] @ ''re a satisfied customer leaving a short review (under 50 words) about ''
     @ [CHR 0x27] @ RESTAURANT_NAME @ [CHR 0x27] @ '' - ''
     @ ''a popular dal pakwan restaurant in Surat, Gujarat. Make it sound human, sincere, and natural. ''
     @ ''Use the following keywords organically in the review:'' @ [CHR 0x0A]"

definition prompt_tail :: string where
  "prompt_tail =
     ''.'' @ [CHR 0x0A]
     @ ''Keep the tone friendly and helpful. Focus on the food quality, taste, and dining experience. ''
     @ ''Mention specific items like dal pakwan if appropriate.''"

definition generate_prompt ::
  "string list \<Rightarrow> keyword_table \<Rightarrow> rng \<Rightarrow> py_error + string \<times> rng" where
  "generate_prompt user_kws keyword_data g =
     (case sample (backend_keywords keyword_data) 2 g of
        Inl e \<Rightarrow> Inl e
      | Inr (backend, g1) \<Rightarrow>
          (case select_weighted_seo (seo_keywords keyword_data) 2 g1 of
             Inl e \<Rightarrow> Inl e
           | Inr (seo, g2) \<Rightarrow>
               (let (all_keywords, g3) = shuffle (user_kws @ backend @ seo) g2
                in Inr (prompt_head @ join '', '' all_keywords @ prompt_tail, g3))))"

section \<open>JSON values with Python's operations\<close>

text \<open>
  What \<open>request.get_json()\<close> and \<open>resp.json()\<close> hand to the program: \<open>None\<close>, booleans,
  numbers, strings, lists and dicts. A dict is an association list read with \<open>map_of\<close>.
  Numbers are rationals; the program only tests them for zero.
\<close>

datatype json =
    JNull
  | JBool bool
  | JNum rat
  | JStr string
  | JArr "json list"
  | JObj "(string \<times> json) list"

text \<open>Truth value of an object, as \<open>if x:\<close> and \<open>not x\<close> take it.\<close>

fun truthy :: "json \<Rightarrow> bool" where
  "truthy JNull = False"
| "truthy (JBool b) = b"
| "truthy (JNum r) = (r \<noteq> 0)"
| "truthy (JStr s) = (s \<noteq> [])"
| "truthy (JArr xs) = (xs \<noteq> [])"
| "truthy (JObj kvs) = (kvs \<noteq> [])"

text \<open>\<open>x.get(key, default)\<close>: only a dict has the method.\<close>

fun py_get :: "json \<Rightarrow> string \<Rightarrow> json \<Rightarrow> py_error + json" where
  "py_get (JObj kvs) key dflt = Inr (case map_of kvs key of None \<Rightarrow> dflt | Some v \<Rightarrow> v)"
| "py_get _ key dflt = Inl AttributeError"

text \<open>\<open>x[key]\<close> with a string key.\<close>

fun py_item :: "json \<Rightarrow> string \<Rightarrow> py_error + json" where
  "py_item (JObj kvs) key = (case map_of kvs key of None \<Rightarrow> Inl KeyError | Some v \<Rightarrow> Inr v)"
| "py_item _ key = Inl TypeError"

text \<open>\<open>x[0]\<close>. The keys of a parsed dict are strings, so \<open>0\<close> is never one of them.\<close>

fun py_item0 :: "json \<Rightarrow> py_error + json" where
  "py_item0 (JArr xs) = (case xs of [] \<Rightarrow> Inl IndexError | x # _ \<Rightarrow> Inr x)"
| "py_item0 (JStr s) = (case s of [] \<Rightarrow> Inl IndexError | c # _ \<Rightarrow> Inr (JStr [c]))"
| "py_item0 (JObj kvs) = Inl KeyError"
| "py_item0 _ = Inl TypeError"

text \<open>The value as a list of strings, when it is one.\<close>

fun json_str :: "json \<Rightarrow> string option" where
  "json_str (JStr s) = Some s"
| "json_str _ = None"

fun as_strings :: "json \<Rightarrow> string list option" where
  "as_strings (JArr xs) = those (map json_str xs)"
| "as_strings _ = None"

subsection \<open>\<open>str.strip\<close> and \<open>requests.utils.quote\<close>\<close>

text \<open>
  Strings are the UTF-8 bytes of Python's \<open>str\<close>. \<open>strip()\<close> removes the characters
  \<open>str.isspace\<close> accepts from both ends: the ASCII ones (9 to 13, 28 to 32) and U+0085,
  U+00A0, U+1680, U+2000 to U+200A, U+2028, U+2029, U+202F, U+205F and U+3000, here by
  their encodings.
\<close>

definition whitespace :: "string list" where
  "whitespace = map (map (char_of :: nat \<Rightarrow> char)) [
     [9], [10], [11], [12], [13], [28], [29], [30], [31], [32],
     [194, 133], [194, 160], [225, 154, 128],
     [226, 128, 128], [226, 128, 129], [226, 128, 130], [226, 128, 131], [226, 128, 132],
     [226, 128, 133], [226, 128, 134], [226, 128, 135], [226, 128, 136], [226, 128, 137],
     [226, 128, 138], [226, 128, 168], [226, 128, 169], [226, 128, 175], [226, 129, 159],
     [227, 128, 128]]"

text \<open>Removes from the front of \<open>s\<close> every leading occurrence of one of the sequences.\<close>

function drop_leading :: "string list \<Rightarrow> string \<Rightarrow> string" where
  "drop_leading ws s =
     (case find (\<lambda>w. w \<noteq> [] \<and> prefix w s) ws of
        None \<Rightarrow> s
      | Some w \<Rightarrow> drop_leading ws (drop (length w) s))"
  by pat_completeness auto
termination
  by (relation "measure (\<lambda>(ws, s). length s)") (auto simp: find_Some_iff prefix_def)

declare drop_leading.simps [simp del]

definition strip :: "string \<Rightarrow> string" where
  "strip s = rev (drop_leading (map rev whitespace) (rev (drop_leading whitespace s)))"

text \<open>
  \<open>quote(s)\<close> with the default \<open>safe='/'\<close>: letters, digits and \<open>_.-~/\<close> stay, every other
  byte becomes \<open>%XX\<close> in upper-case hexadecimal.
\<close>

definition always_safe :: "char \<Rightarrow> bool" where
  "always_safe c =
     (c \<in> set (''ABCDEFGHIJKLMNOPQRSTUVWXYZ'' @ ''abcdefghijklmnopqrstuvwxyz'' @ ''0123456789'' @ ''_.-~''))"

definition hex_digit :: "nat \<Rightarrow> char" where
  "hex_digit n = ''0123456789ABCDEF'' ! n"

definition quote_char :: "char \<Rightarrow> string" where
  "quote_char c =
     (if always_safe c \<or> c = CHR ''/'' then [c]
      else (let n = (of_char c :: nat) in [CHR ''%'', hex_digit (n div 16), hex_digit (n mod 16)]))"

definition quote :: "string \<Rightarrow> string" where
  "quote s = concat (map quote_char s)"

section \<open>Collaborators and configuration\<close>

text \<open>
  What one request meets outside the program: the places key from the environment, the
  answer of the places service (\<open>requests.get\<close> raises, \<open>resp.json()\<close> raises, or a parsed
  body), and the text-generation client, which for a prompt raises or returns the
  \<open>message.content\<close> of each choice. \<open>str_of\<close> is Python's \<open>str()\<close> on values other than
  strings, which an f-string applies; the model leaves its text open.
\<close>

datatype places_reply = Unreachable | NotJson | Reply json

record env =
  GOOGLE_PLACES_API_KEY :: "string option"
  places :: places_reply
  completion :: "string \<Rightarrow> py_error + string option list"
  str_of :: "json \<Rightarrow> string"

datatype call = TextGeneration string | PlacesLookup

text \<open>
  A response body is what \<open>jsonify\<close> was given. \<open>Failure prefix e\<close> is the body
  \<open>{"error": prefix + str(e)}\<close> of the 500 answer, with the exception kept as a value.
  \<open>Unhandled e\<close> is the framework's own 500 page for an exception no handler caught.
\<close>

datatype payload = Json json | Failure string py_error | Unhandled py_error

datatype response = Response (status: nat) (payload: payload)

section \<open>Place lookup\<close>

text \<open>The body of the \<open>try\<close> block of \<open>get_google_place_id\<close>, after the request is sent.\<close>

definition lookup_body :: "places_reply \<Rightarrow> py_error + json" where
  "lookup_body reply =
     (case reply of
        Unreachable \<Rightarrow> Inl RequestError
      | NotJson \<Rightarrow> Inl JSONDecodeError
      | Reply data \<Rightarrow>
          (case py_get data ''status'' JNull of
             Inl e \<Rightarrow> Inl e
           | Inr st \<Rightarrow>
               if st \<noteq> JStr ''OK'' then Inr JNull
               else (case py_get data ''candidates'' JNull of
                  Inl e \<Rightarrow> Inl e
                | Inr cands \<Rightarrow>
                    if \<not> truthy cands then Inr JNull
                    else (case py_item data ''candidates'' of
                       Inl e \<Rightarrow> Inl e
                     | Inr cs \<Rightarrow>
                         (case py_item0 cs of
                            Inl e \<Rightarrow> Inl e
                          | Inr c \<Rightarrow> py_item c ''place_id'')))))"

text \<open>
  \<open>get_google_place_id\<close>: without a key nothing is sent; otherwise every exception of the
  body is caught and the result is \<open>None\<close>.
\<close>

definition get_google_place_id :: "env \<Rightarrow> json \<times> call list" where
  "get_google_place_id env =
     (case GOOGLE_PLACES_API_KEY env of
        None \<Rightarrow> (JNull, [])
      | Some key \<Rightarrow>
          if key = [] then (JNull, [])
          else (case lookup_body (places env) of
                  Inl e \<Rightarrow> (JNull, [PlacesLookup])
                | Inr v \<Rightarrow> (v, [PlacesLookup])))"

section \<open>Request handlers\<close>

definition py_format :: "env \<Rightarrow> json \<Rightarrow> string" where
  "py_format env v = (case v of JStr s \<Rightarrow> s | _ \<Rightarrow> str_of env v)"

definition google_search_url :: string where
  "google_search_url =
     ''https://www.google.com/search?q=''
     @ quote (RESTAURANT_NAME @ '' '' @ RESTAURANT_ADDRESS @ '' write review'')"

text \<open>The review-submission URL both handlers build from the looked-up identifier.\<close>

definition google_review_url :: "env \<Rightarrow> json \<Rightarrow> string" where
  "google_review_url env place_id =
     (if truthy place_id
      then ''https://search.google.com/local/writereview?placeid='' @ py_format env place_id
      else google_search_url)"

definition failed :: "py_error \<Rightarrow> response" where
  "failed e = Response 500 (Failure ''Review generation failed: '' e)"

text \<open>\<open>response.choices[0].message.content\<close>.\<close>

definition first_content :: "string option list \<Rightarrow> py_error + string" where
  "first_content contents =
     (case contents of
        [] \<Rightarrow> Inl IndexError
      | None # _ \<Rightarrow> Inl AttributeError
      | Some text # _ \<Rightarrow> Inr text)"

text \<open>
  \<open>POST /api/generate-review\<close>. The argument \<open>req\<close> is what \<open>request.get_json()\<close> does:
  it raises or returns the parsed body. The whole handler sits in a \<open>try\<close> whose
  \<open>except Exception\<close> answers 500. A truthy \<open>selectedKeywords\<close> that is not a list of
  strings makes the concatenation or the join inside \<open>generate_prompt\<close> raise
  \<open>TypeError\<close>. The handler returns the response and the collaborator calls it made.
\<close>

definition generate_review :: "env \<Rightarrow> py_error + json \<Rightarrow> rng \<Rightarrow> response \<times> call list" where
  "generate_review env req g =
     (case req of
        Inl e \<Rightarrow> (failed e, [])
      | Inr data \<Rightarrow>
          (case py_get data ''selectedKeywords'' (JArr []) of
             Inl e \<Rightarrow> (failed e, [])
           | Inr selected \<Rightarrow>
               if \<not> truthy selected
               then (Response 400 (Json (JObj [(''error'', JStr ''No keywords provided'')])), [])
               else (case as_strings selected of
                  None \<Rightarrow> (failed TypeError, [])
                | Some user_kws \<Rightarrow>
                    (case generate_prompt user_kws load_keywords g of
                       Inl e \<Rightarrow> (failed e, [])
                     | Inr (prompt, g') \<Rightarrow>
                         (case completion env prompt of
                            Inl e \<Rightarrow> (failed e, [TextGeneration prompt])
                          | Inr contents \<Rightarrow>
                              (case first_content contents of
                                 Inl e \<Rightarrow> (failed e, [TextGeneration prompt])
                               | Inr text \<Rightarrow>
                                   (let review = strip text;
                                        (place_id, calls) = get_google_place_id env
                                    in (Response 200 (Json (JObj [
                                          (''review'', JStr review),
                                          (''prompt'', JStr prompt),
                                          (''restaurant_name'', JStr RESTAURANT_NAME),
                                          (''restaurant_address'', JStr RESTAURANT_ADDRESS),
                                          (''place_id'', place_id),
                                          (''google_review_url'', JStr (google_review_url env place_id))])),
                                        TextGeneration prompt # calls))))))))"

text \<open>\<open>GET /api/restaurant-info\<close>.\<close>

definition get_restaurant_info :: "env \<Rightarrow> response \<times> call list" where
  "get_restaurant_info env =
     (let (place_id, calls) = get_google_place_id env
      in (Response 200 (Json (JObj [
            (''name'', JStr RESTAURANT_NAME),
            (''address'', JStr RESTAURANT_ADDRESS),
            (''place_id'', place_id),
            (''google_search_url'', JStr google_search_url),
            (''google_review_url'', JStr (google_review_url env place_id))])),
          calls))"

text \<open>\<open>GET /api/keywords\<close>: \<open>jsonify(load_keywords())\<close>.\<close>

definition seo_json :: "seo_keyword \<Rightarrow> json" where
  "seo_json e = JObj [(''word'', JStr (word e)), (''weight'', JNum (of_int (weight e)))]"

definition keywords_json :: "keyword_table \<Rightarrow> json" where
  "keywords_json t = JObj [
     (''user_keywords'', JArr (map JStr (user_keywords t))),
     (''backend_keywords'', JArr (map JStr (backend_keywords t))),
     (''seo_keywords'', JArr (map seo_json (seo_keywords t)))]"

definition get_keywords :: "response \<times> call list" where
  "get_keywords = (Response 200 (Json (keywords_json load_keywords)), [])"

text \<open>\<open>GET /health\<close>.\<close>

definition health :: "response \<times> call list" where
  "health = (Response 200 (Json (JObj [
     (''status'', JStr ''healthy''), (''restaurant'', JStr RESTAURANT_NAME)])), [])"

text \<open>The routes, as the framework dispatches them.\<close>

datatype request =
    PostGenerateReview "py_error + json"
  | GetRestaurantInfo
  | GetKeywords
  | GetHealth

section \<open>Prompt composition on a store of list objects\<close>

text \<open>
  Python lists are mutable objects and variables hold references to them, so whether a
  call changes its arguments depends on which object each operation writes. Here the
  store is the sequence of list objects allocated so far, an address is a position in
  it, and allocation appends. \<open>keyword_data\<close> is the dict of three addresses. Reading an
  address that holds no list of the expected kind raises \<open>TypeError\<close>.
\<close>

type_synonym addr = nat

datatype obj = StrList "string list" | SeoList "seo_keyword list"

type_synonym store = "obj list"

record keyword_refs =
  user_keywords_at :: addr
  backend_keywords_at :: addr
  seo_keywords_at :: addr

definition alloc :: "obj \<Rightarrow> store \<Rightarrow> addr \<times> store" where
  "alloc v h = (length h, h @ [v])"

definition read_strs :: "store \<Rightarrow> addr \<Rightarrow> py_error + string list" where
  "read_strs h a =
     (if a < length h then (case h ! a of StrList xs \<Rightarrow> Inr xs | SeoList es \<Rightarrow> Inl TypeError)
      else Inl TypeError)"

definition read_seos :: "store \<Rightarrow> addr \<Rightarrow> py_error + seo_keyword list" where
  "read_seos h a =
     (if a < length h then (case h ! a of SeoList es \<Rightarrow> Inr es | StrList xs \<Rightarrow> Inl TypeError)
      else Inl TypeError)"

text \<open>\<open>load_keywords()\<close> builds its three lists anew at every call.\<close>

definition load_keywords_st :: "store \<Rightarrow> keyword_refs \<times> store" where
  "load_keywords_st h =
     (let (u, h1) = alloc (StrList (user_keywords load_keywords)) h;
          (b, h2) = alloc (StrList (backend_keywords load_keywords)) h1;
          (s, h3) = alloc (SeoList (seo_keywords load_keywords)) h2
      in (\<lparr>user_keywords_at = u, backend_keywords_at = b, seo_keywords_at = s\<rparr>, h3))"

text \<open>
  \<open>random.shuffle(x)\<close> writes into the object it is given: afterwards the object at the
  address holds the shuffled contents.
\<close>

definition shuffle_at :: "addr \<Rightarrow> store \<Rightarrow> rng \<Rightarrow> (py_error + rng) \<times> store" where
  "shuffle_at a h g =
     (case read_strs h a of
        Inl e \<Rightarrow> (Inl e, h)
      | Inr xs \<Rightarrow> (let (ys, g') = shuffle xs g in (Inr g', h[a := StrList ys])))"

text \<open>
  \<open>generate_prompt\<close> with its arguments by reference. \<open>random.sample\<close> and
  \<open>random.choices\<close> return new lists, \<open>user_keywords + backend + seo\<close> builds a new list,
  and the shuffle is applied to that one. Temporaries no name refers to are left out.
  The result is the prompt (or the exception) and the store the call leaves behind.
\<close>

definition generate_prompt_st ::
  "addr \<Rightarrow> keyword_refs \<Rightarrow> store \<Rightarrow> rng \<Rightarrow> (py_error + string \<times> rng) \<times> store" where
  "generate_prompt_st user_at keyword_data h g =
     (case read_strs h (backend_keywords_at keyword_data) of
        Inl e \<Rightarrow> (Inl e, h)
      | Inr population \<Rightarrow>
     (case sample population 2 g of
        Inl e \<Rightarrow> (Inl e, h)
      | Inr (backend, g1) \<Rightarrow>
     (let (backend_at, h1) = alloc (StrList backend) h in
     (case read_seos h1 (seo_keywords_at keyword_data) of
        Inl e \<Rightarrow> (Inl e, h1)
      | Inr table \<Rightarrow>
     (case select_weighted_seo table 2 g1 of
        Inl e \<Rightarrow> (Inl e, h1)
      | Inr (seo, g2) \<Rightarrow>
     (let (seo_at, h2) = alloc (StrList seo) h1 in
     (case read_strs h2 user_at of
        Inl e \<Rightarrow> (Inl e, h2)
      | Inr user_kws \<Rightarrow>
     (let (all_at, h3) = alloc (StrList (user_kws @ backend @ seo)) h2 in
     (case shuffle_at all_at h3 g2 of
        (Inl e, h4) \<Rightarrow> (Inl e, h4)
      | (Inr g3, h4) \<Rightarrow>
     (case read_strs h4 all_at of
        Inl e \<Rightarrow> (Inl e, h4)
      | Inr all_keywords \<Rightarrow>
          (Inr (prompt_head @ join '', '' all_keywords @ prompt_tail, g3), h4)))))))))))"

section \<open>The process: handlers on the store\<close>

text \<open>
  What lives as long as the process is the store of list objects. Each handler takes the
  store as it finds it and leaves the store the next request will find. The environment
  and the random draws are those the request meets.

  \<open>GET /api/keywords\<close>: \<open>load_keywords()\<close> builds the three lists, \<open>jsonify\<close> reads them.
\<close>

definition read_table :: "store \<Rightarrow> keyword_refs \<Rightarrow> py_error + keyword_table" where
  "read_table h refs =
     (case read_strs h (user_keywords_at refs) of
        Inl e \<Rightarrow> Inl e
      | Inr u \<Rightarrow>
          (case read_strs h (backend_keywords_at refs) of
             Inl e \<Rightarrow> Inl e
           | Inr b \<Rightarrow>
               (case read_seos h (seo_keywords_at refs) of
                  Inl e \<Rightarrow> Inl e
                | Inr s \<Rightarrow> Inr \<lparr>user_keywords = u, backend_keywords = b, seo_keywords = s\<rparr>)))"

definition get_keywords_st :: "store \<Rightarrow> (response \<times> call list) \<times> store" where
  "get_keywords_st h =
     (let (keywords, h1) = load_keywords_st h
      in (case read_table h1 keywords of
            Inl e \<Rightarrow> ((Response 500 (Unhandled e), []), h1)
          | Inr t \<Rightarrow> ((Response 200 (Json (keywords_json t)), []), h1)))"

text \<open>
  \<open>POST /api/generate-review\<close>: the table is built by \<open>load_keywords()\<close>, the parsed
  keyword list is an object of the store (it enters the store where the composer
  receives it), and the prompt is composed on the store.
\<close>

definition generate_review_st ::
  "env \<Rightarrow> py_error + json \<Rightarrow> rng \<Rightarrow> store \<Rightarrow> (response \<times> call list) \<times> store" where
  "generate_review_st env req g h =
     (case req of
        Inl e \<Rightarrow> ((failed e, []), h)
      | Inr data \<Rightarrow>
          (case py_get data ''selectedKeywords'' (JArr []) of
             Inl e \<Rightarrow> ((failed e, []), h)
           | Inr selected \<Rightarrow>
               if \<not> truthy selected
               then ((Response 400 (Json (JObj [(''error'', JStr ''No keywords provided'')])), []), h)
               else (let (keywords, h1) = load_keywords_st h in
                 (case as_strings selected of
                    None \<Rightarrow> ((failed TypeError, []), h1)
                  | Some user_kws \<Rightarrow>
                      (let (user_at, h2) = alloc (StrList user_kws) h1 in
                       (case generate_prompt_st user_at keywords h2 g of
                          (Inl e, h3) \<Rightarrow> ((failed e, []), h3)
                        | (Inr (prompt, g'), h3) \<Rightarrow>
                            (case completion env prompt of
                               Inl e \<Rightarrow> ((failed e, [TextGeneration prompt]), h3)
                             | Inr contents \<Rightarrow>
                                 (case first_content contents of
                                    Inl e \<Rightarrow> ((failed e, [TextGeneration prompt]), h3)
                                  | Inr answer \<Rightarrow>
                                      (let review = strip answer;
                                           (place_id, calls) = get_google_place_id env
                                       in ((Response 200 (Json (JObj [
                                             (''review'', JStr review),
                                             (''prompt'', JStr prompt),
                                             (''restaurant_name'', JStr RESTAURANT_NAME),
                                             (''restaurant_address'', JStr RESTAURANT_ADDRESS),
                                             (''place_id'', place_id),
                                             (''google_review_url'',
                                                JStr (google_review_url env place_id))])),
                                           TextGeneration prompt # calls), h3))))))))))"

fun serve_st ::
  "env \<Rightarrow> rng \<Rightarrow> request \<Rightarrow> store \<Rightarrow> (response \<times> call list) \<times> store" where
  "serve_st env g (PostGenerateReview req) h = generate_review_st env req g h"
| "serve_st env g GetRestaurantInfo h = (get_restaurant_info env, h)"
| "serve_st env g GetKeywords h = get_keywords_st h"
| "serve_st env g GetHealth h = (health, h)"

text \<open>
  One process lifetime: the requests in the order they arrive, each with the environment
  and the draws it meets, served one after the other from the store the process starts
  with. The result is the list of answers and the final store.
\<close>

fun run ::
  "(env \<times> rng \<times> request) list \<Rightarrow> store \<Rightarrow> (response \<times> call list) list \<times> store" where
  "run [] h = ([], h)"
| "run ((env, g, req) # rest) h =
     (let (r, h1) = serve_st env g req h;
          (rs, h2) = run rest h1
      in (r # rs, h2))"

definition example_store :: store where
  "example_store = snd (load_keywords_st [StrList [''tasty'', ''fresh'']])"

definition example_refs :: keyword_refs where
  "example_refs = fst (load_keywords_st [StrList [''tasty'', ''fresh'']])"

section \<open>Example inputs\<close>

text \<open>
  A configured environment for the concrete instances below: the places service gives the
  stated reply and the text-generation client answers every prompt with one choice.
\<close>

definition example_env :: "places_reply \<Rightarrow> env" where
  "example_env reply = \<lparr>
     GOOGLE_PLACES_API_KEY = Some ''places-key'',
     places = reply,
     completion = (\<lambda>prompt. Inr [Some ''  Loved the crispy dal pakwan!  '']),
     str_of = (\<lambda>v. ''?'')\<rparr>"

definition no_results_reply :: places_reply where
  "no_results_reply = Reply (JObj [(''candidates'', JArr []), (''status'', JStr ''ZERO_RESULTS'')])"

definition match_reply :: places_reply where
  "match_reply = Reply (JObj [
     (''candidates'', JArr [JObj [(''place_id'', JStr ''ChIJN1t_tDeuEmsRUsoyG83frY4'')]]),
     (''status'', JStr ''OK'')])"

definition tasty_request :: "py_error + json" where
  "tasty_request = Inr (JObj [(''selectedKeywords'', JArr [JStr ''tasty'', JStr ''fresh''])])"

text \<open>A field of a JSON response body, as a client reads it.\<close>

fun field :: "string \<Rightarrow> response \<Rightarrow> json option" where
  "field key (Response st (Json (JObj kvs))) = map_of kvs key"
| "field key _ = None"

section \<open>Properties of the library routines\<close>

lemma randbelow_less: "0 < n \<Longrightarrow> fst (randbelow n g) < n"
  by (simp add: randbelow_def next_draw_def)

lemma sample_two_positions:
  assumes "2 \<le> length xs"
  shows "\<exists>i j g'. i < length xs \<and> j < length xs \<and> i \<noteq> j \<and>
           sample xs 2 g = Inr ([xs ! i, xs ! j], g')"
proof -
  let ?n = "length xs"
  obtain j1 g1 where r1: "randbelow ?n g = (j1, g1)" by (cases "randbelow ?n g")
  obtain j2 g2 where r2: "randbelow (?n - 1) g1 = (j2, g2)" by (cases "randbelow (?n - 1) g1")
  have "0 < ?n" using assms by linarith
  then have "fst (randbelow ?n g) < ?n" by (rule randbelow_less)
  with r1 have j1: "j1 < ?n" by simp
  have "0 < ?n - 1" using assms by linarith
  then have "fst (randbelow (?n - 1) g1) < ?n - 1" by (rule randbelow_less)
  with r2 have j2: "j2 < ?n - 1" by simp
  have s: "sample xs 2 g = Inr ([xs ! j1, (xs[j1 := xs ! (?n - 1)]) ! j2], g2)"
    using assms r1 r2 by (simp add: sample_def numeral_2_eq_2)
  show ?thesis
  proof (cases "j2 = j1")
    case True
    with j1 j2 have "(xs[j1 := xs ! (?n - 1)]) ! j2 = xs ! (?n - 1)" by simp
    with s have "sample xs 2 g = Inr ([xs ! j1, xs ! (?n - 1)], g2)" by simp
    moreover have "j1 \<noteq> ?n - 1" using True j2 by simp
    moreover have "?n - 1 < ?n" using assms by simp
    ultimately show ?thesis using j1 by blast
  next
    case False
    then have "(xs[j1 := xs ! (?n - 1)]) ! j2 = xs ! j2" by simp
    with s have "sample xs 2 g = Inr ([xs ! j1, xs ! j2], g2)" by simp
    moreover have "j2 < ?n" using j2 by simp
    ultimately show ?thesis using j1 False by blast
  qed
qed

lemma sample_two_reaches:
  assumes "i < length xs" "j < length xs" "i \<noteq> j"
  shows "fst (projr (sample xs 2 (replay [i, if j = length xs - 1 then i else j]))) = [xs ! i, xs ! j]"
proof -
  let ?n = "length xs"
  let ?j2 = "if j = ?n - 1 then i else j"
  have n: "2 \<le> ?n" using assms by linarith
  have j2: "?j2 < ?n - 1" using assms by auto
  have "fst (projr (sample xs 2 (replay [i, ?j2]))) = [xs ! i, (xs[i := xs ! (?n - 1)]) ! ?j2]"
    using n assms(1) j2
    by (simp add: sample_def replay_def randbelow_def next_draw_def numeral_2_eq_2 Let_def)
  moreover have "(xs[i := xs ! (?n - 1)]) ! ?j2 = xs ! j" using assms by auto
  ultimately show ?thesis by simp
qed

lemma sublist_in_context: "sublist k m \<Longrightarrow> sublist k (p @ m @ s)"
proof -
  assume "sublist k m"
  then obtain ps ss where "m = ps @ k @ ss" by (auto simp: sublist_def)
  then have "p @ m @ s = (p @ ps) @ k @ (ss @ s)" by simp
  then show ?thesis unfolding sublist_def by blast
qed

lemma bisect_bounds: "lo \<le> hi \<Longrightarrow> lo \<le> bisect a x lo hi \<and> bisect a x lo hi \<le> hi"
proof (induction a x lo hi rule: bisect.induct)
  case (1 a x lo hi)
  let ?mid = "(lo + hi) div 2"
  show ?case
  proof (cases "lo < hi")
    case True
    show ?thesis
    proof (cases "x < of_int (a ! ?mid)")
      case lt: True
      have eq: "bisect a x lo hi = bisect a x lo ?mid"
        using True lt by (subst bisect.simps) (simp add: Let_def)
      have "lo \<le> ?mid" using True by simp
      from "1.IH"(1) [OF True refl lt this] have "lo \<le> bisect a x lo ?mid \<and> bisect a x lo ?mid \<le> ?mid" .
      moreover have "?mid \<le> hi" using True by simp
      ultimately show ?thesis using eq by simp
    next
      case ge: False
      have eq: "bisect a x lo hi = bisect a x (?mid + 1) hi"
        using True ge by (subst bisect.simps) (simp add: Let_def)
      have "?mid + 1 \<le> hi" using True by simp
      from "1.IH"(2) [OF True refl ge this]
      have "?mid + 1 \<le> bisect a x (?mid + 1) hi \<and> bisect a x (?mid + 1) hi \<le> hi" .
      moreover have "lo \<le> ?mid + 1" using True by simp
      ultimately show ?thesis using eq by simp
    qed
  next
    case False
    then have "bisect a x lo hi = lo" by (subst bisect.simps) simp
    with "1.prems" show ?thesis by simp
  qed
qed

text \<open>The index \<open>random.choices\<close> reads is within the population.\<close>

lemma choices_draw_set:
  "hi < length population \<Longrightarrow>
   set (fst (choices_draw population cum_weights tot hi k g)) \<subseteq> set population"
proof (induction k arbitrary: g)
  case 0
  then show ?case by simp
next
  case (Suc k)
  obtain u g1 where r: "random_float g = (u, g1)" by (cases "random_float g")
  let ?i = "bisect cum_weights (u * of_int tot) 0 hi"
  have "?i \<le> hi" using bisect_bounds [of 0 hi cum_weights "u * of_int tot"] by simp
  with Suc.prems have "population ! ?i \<in> set population" by simp
  moreover have "set (fst (choices_draw population cum_weights tot hi k g1)) \<subseteq> set population"
    using Suc.prems by (rule Suc.IH)
  ultimately show ?case using r
    by (cases "choices_draw population cum_weights tot hi k g1") simp
qed

lemma shuffle_from_mset:
  "i < length x \<Longrightarrow> mset (fst (shuffle_from i x g)) = mset x"
proof (induction i arbitrary: x g)
  case 0
  then show ?case by simp
next
  case (Suc i)
  obtain j g1 where r: "randbelow (Suc i + 1) g = (j, g1)" by (cases "randbelow (Suc i + 1) g")
  have "j < Suc i + 1" using randbelow_less [of "Suc i + 1" g] r by simp
  with Suc.prems have j: "j < length x" by simp
  let ?x' = "x[Suc i := x ! j, j := x ! Suc i]"
  have "mset ?x' = mset x" using mset_swap [of j x "Suc i"] j Suc.prems by simp
  moreover have "mset (fst (shuffle_from i ?x' g1)) = mset ?x'"
    using Suc.IH [of ?x' g1] Suc.prems by simp
  ultimately show ?case using r by simp
qed

lemma shuffle_mset: "mset (fst (shuffle x g)) = mset x"
proof (cases x)
  case Nil
  then show ?thesis by (simp add: shuffle_def)
next
  case (Cons a as)
  then show ?thesis using shuffle_from_mset [of "length x - 1" x g] by (simp add: shuffle_def)
qed

lemma sublist_join: "k \<in> set xs \<Longrightarrow> sublist k (join sep xs)"
proof (induction sep xs rule: join.induct)
  case (1 sep)
  then show ?case by simp
next
  case (2 sep x)
  then show ?case by simp
next
  case (3 sep x y ys)
  show ?case
  proof (cases "k = x")
    case True
    then show ?thesis by (simp add: sublist_append_rightI)
  next
    case False
    with "3.prems" have "k \<in> set (y # ys)" by simp
    from "3.IH" [OF this] have "sublist k (join sep (y # ys))" .
    then have "sublist k ((x @ sep) @ join sep (y # ys) @ [])" by (rule sublist_in_context)
    then show ?thesis by simp
  qed
qed

lemma length_accumulate_from: "length (accumulate_from acc ws) = length ws"
  by (induction ws arbitrary: acc) simp_all

lemma last_accumulate_from:
  "ws \<noteq> [] \<Longrightarrow> last (accumulate_from acc ws) = acc + sum_list ws"
proof (induction ws arbitrary: acc)
  case Nil
  then show ?case by simp
next
  case (Cons w ws)
  show ?case
  proof (cases ws)
    case Nil
    then show ?thesis by simp
  next
    case (Cons v vs)
    then have "ws \<noteq> []" by simp
    from Cons.IH [OF this, of "acc + w"] Cons show ?thesis by simp
  qed
qed

lemma sum_list_weights_pos:
  "ws \<noteq> [] \<Longrightarrow> list_all (\<lambda>w. 0 < w) ws \<Longrightarrow> 0 < sum_list (ws :: int list)"
proof (induction ws)
  case Nil
  then show ?case by simp
next
  case (Cons w ws)
  show ?case
  proof (cases "ws = []")
    case True
    with Cons.prems show ?thesis by simp
  next
    case False
    with Cons have "0 < sum_list ws" by simp
    with Cons.prems show ?thesis by simp
  qed
qed

lemma choices_ok:
  assumes "length weights = length population" "weights \<noteq> []" "0 < sum_list weights"
  shows "\<exists>r g'. choices population weights k g = Inr (r, g')"
proof -
  have "length (accumulate weights) = length population"
    using assms(1) by (simp add: accumulate_def length_accumulate_from)
  moreover have "accumulate weights \<noteq> []"
    using assms(2) length_accumulate_from [of 0 weights] by (auto simp: accumulate_def)
  moreover have "last (accumulate weights) = sum_list weights"
    using assms(2) by (simp add: accumulate_def last_accumulate_from)
  ultimately show ?thesis
    using assms(3) by (cases "choices_draw population (accumulate weights) (sum_list weights) (length population - 1) (nat k) g")
      (simp add: choices_def Let_def)
qed

lemma select_weighted_seo_ok:
  assumes "seo \<noteq> []" "list_all (\<lambda>e. 0 < weight e) seo"
  shows "\<exists>r g'. select_weighted_seo seo k g = Inr (r, g')"
proof -
  have "list_all (\<lambda>w. 0 < w) (map weight seo)" using assms(2) by (simp add: list_all_iff)
  with assms(1) have "0 < sum_list (map weight seo)" by (simp add: sum_list_weights_pos)
  with assms(1) show ?thesis
    unfolding select_weighted_seo_def Let_def by (intro choices_ok) simp_all
qed

lemma sample_ok: "0 \<le> k \<Longrightarrow> k \<le> int (length xs) \<Longrightarrow> \<exists>r g'. sample xs k g = Inr (r, g')"
  by (cases "sample_pool xs (length xs) (nat k) g") (simp add: sample_def)

lemma generate_prompt_ok:
  assumes "2 \<le> length (backend_keywords kd)" "seo_keywords kd \<noteq> []"
    "list_all (\<lambda>e. 0 < weight e) (seo_keywords kd)"
  shows "\<exists>p g'. generate_prompt uks kd g = Inr (p, g')"
proof -
  obtain backend g1 where s: "sample (backend_keywords kd) 2 g = Inr (backend, g1)"
    using sample_ok [of 2 "backend_keywords kd" g] assms(1) by auto
  obtain seo g2 where w: "select_weighted_seo (seo_keywords kd) 2 g1 = Inr (seo, g2)"
    using select_weighted_seo_ok [OF assms(2,3), of 2 g1] by auto
  show ?thesis using s w
    by (cases "shuffle (uks @ backend @ seo) g2") (simp add: generate_prompt_def)
qed

lemma generate_prompt_sublist:
  assumes "generate_prompt uks kd g = Inr (p, g')" "k \<in> set uks"
  shows "sublist k p"
proof -
  from assms(1) obtain backend seo g2 all_keywords where
    sh: "shuffle (uks @ backend @ seo) g2 = (all_keywords, g')" and
    p: "p = prompt_head @ join '', '' all_keywords @ prompt_tail"
    by (auto simp: generate_prompt_def split: sum.splits prod.splits)
  have "mset (fst (shuffle (uks @ backend @ seo) g2)) = mset (uks @ backend @ seo)"
    by (rule shuffle_mset)
  with sh have "mset all_keywords = mset (uks @ backend @ seo)" by simp
  then have "set all_keywords = set (uks @ backend @ seo)" by (rule mset_eq_setD)
  with assms(2) have "k \<in> set all_keywords" by simp
  then have "sublist k (join '', '' all_keywords)" by (rule sublist_join)
  then show ?thesis unfolding p by (rule sublist_in_context)
qed

lemma load_keywords_pre:
  "2 \<le> length (backend_keywords load_keywords) \<and> seo_keywords load_keywords \<noteq> [] \<and>
   list_all (\<lambda>e. 0 < weight e) (seo_keywords load_keywords)"
  by (simp add: load_keywords_def)

section \<open>Properties of prompt composition\<close>

text \<open>
  C1. Whenever the composer produces a prompt, every caller-supplied keyword occurs in it
  as a contiguous substring, whatever the random source draws and wherever the shuffle
  puts the keyword. It does produce a prompt for every keyword list when the table has at
  least two backend phrases and a non-empty SEO list with positive weights.
\<close>

theorem generate_prompt_contains_keywords:
  "(generate_prompt user_kws keyword_data g = Inr (p, g') \<and> k \<in> set user_kws \<longrightarrow> sublist k p) \<and>
   (2 \<le> length (backend_keywords keyword_data) \<and> seo_keywords keyword_data \<noteq> [] \<and>
    list_all (\<lambda>e. 0 < weight e) (seo_keywords keyword_data) \<longrightarrow>
      (\<exists>q h. generate_prompt user_kws keyword_data g = Inr (q, h) \<and>
         (\<forall>k \<in> set user_kws. sublist k q)))"
proof (intro conjI impI)
  assume "generate_prompt user_kws keyword_data g = Inr (p, g') \<and> k \<in> set user_kws"
  then show "sublist k p" using generate_prompt_sublist by blast
next
  assume "2 \<le> length (backend_keywords keyword_data) \<and> seo_keywords keyword_data \<noteq> [] \<and>
    list_all (\<lambda>e. 0 < weight e) (seo_keywords keyword_data)"
  then obtain q h where r: "generate_prompt user_kws keyword_data g = Inr (q, h)"
    using generate_prompt_ok [of keyword_data user_kws g] by blast
  then have "\<forall>k \<in> set user_kws. sublist k q" using generate_prompt_sublist by blast
  with r show "\<exists>q h. generate_prompt user_kws keyword_data g = Inr (q, h) \<and>
      (\<forall>k \<in> set user_kws. sublist k q)" by blast
qed

theorem generate_prompt_contains_keywords_witness:
  "\<exists>q h. generate_prompt [''tasty'', ''fresh''] load_keywords (replay [3, 5, 0, 7, 4, 0, 1, 2, 1])
       = Inr (q, h) \<and>
     sublist ''tasty'' q \<and> sublist ''fresh'' q"
proof -
  from generate_prompt_contains_keywords
      [of "[''tasty'', ''fresh'']" load_keywords "replay [3, 5, 0, 7, 4, 0, 1, 2, 1]"]
    load_keywords_pre
  show ?thesis by simp
qed

text \<open>
  C5. Weighted SEO selection on an empty table raises for every requested count and every
  random source: \<open>random.choices\<close> reads the last cumulative weight of an empty list, which
  is Python's \<open>IndexError\<close>.
\<close>

theorem select_weighted_seo_empty:
  "select_weighted_seo [] k g = Inl IndexError"
  by (simp add: select_weighted_seo_def choices_def accumulate_def)

text \<open>
  C6 as stated fails: \<open>random.sample\<close> picks two different positions, not two different
  values. A list with two distinct entries and a repeated one can yield the repeated
  phrase twice.
\<close>

theorem backend_sample_duplicates:
  "2 \<le> card (set [''worth trying'', ''worth trying'', ''perfect taste'']) \<and>
   sample [''worth trying'', ''worth trying'', ''perfect taste''] 2 (replay [0, 1])
     = Inr ([''worth trying'', ''worth trying''], replay [0, 1] \<lparr>cursor := 2\<rparr>)"
  by (simp add: sample_def replay_def randbelow_def next_draw_def numeral_2_eq_2 card_insert_if)

text \<open>
  C6, amended. For every backend list with at least two entries the call succeeds and
  returns the phrases at two different positions of the list; so when the entries are
  pairwise distinct (as in the fixed table) the two phrases are never duplicates.
\<close>

theorem backend_sample_distinct:
  "2 \<le> length xs \<Longrightarrow>
   \<exists>i j g'. i < length xs \<and> j < length xs \<and> i \<noteq> j \<and>
     sample xs 2 g = Inr ([xs ! i, xs ! j], g') \<and> (distinct xs \<longrightarrow> xs ! i \<noteq> xs ! j)"
proof -
  assume "2 \<le> length xs"
  then obtain i j g' where *: "i < length xs" "j < length xs" "i \<noteq> j"
    "sample xs 2 g = Inr ([xs ! i, xs ! j], g')"
    using sample_two_positions [of xs g] by blast
  then have "distinct xs \<longrightarrow> xs ! i \<noteq> xs ! j" by (simp add: nth_eq_iff_index_eq)
  with * show ?thesis by blast
qed

theorem backend_sample_distinct_witness:
  "2 \<le> length (backend_keywords load_keywords) \<and> distinct (backend_keywords load_keywords) \<and>
   (\<exists>i j g'. i < length (backend_keywords load_keywords) \<and> j < length (backend_keywords load_keywords) \<and>
      i \<noteq> j \<and>
      sample (backend_keywords load_keywords) 2 (replay [3, 5])
        = Inr ([backend_keywords load_keywords ! i, backend_keywords load_keywords ! j], g') \<and>
      backend_keywords load_keywords ! i \<noteq> backend_keywords load_keywords ! j)"
proof -
  have l: "2 \<le> length (backend_keywords load_keywords)" by (simp add: load_keywords_def)
  have d: "distinct (backend_keywords load_keywords)" by (simp add: load_keywords_def)
  from backend_sample_distinct [OF l, of "replay [3, 5]"] l d show ?thesis by blast
qed

text \<open>
  C7. With fewer than two backend phrases the sampling step raises (\<open>random.sample\<close>
  rejects a sample larger than the population with \<open>ValueError\<close>), and so does the
  composer, before anything else is drawn.
\<close>

theorem backend_sample_too_short:
  "length (backend_keywords keyword_data) < 2 \<Longrightarrow>
   sample (backend_keywords keyword_data) 2 g = Inl ValueError \<and>
   generate_prompt user_kws keyword_data g = Inl ValueError"
  by (simp add: sample_def generate_prompt_def)

theorem backend_sample_too_short_witness:
  "length (backend_keywords (load_keywords\<lparr>backend_keywords := [''worth trying'']\<rparr>)) < 2 \<and>
   sample (backend_keywords (load_keywords\<lparr>backend_keywords := [''worth trying'']\<rparr>)) 2 (replay [0, 1])
     = Inl ValueError \<and>
   generate_prompt [''tasty''] (load_keywords\<lparr>backend_keywords := [''worth trying'']\<rparr>) (replay [0, 1])
     = Inl ValueError"
proof -
  have h: "length (backend_keywords (load_keywords\<lparr>backend_keywords := [''worth trying'']\<rparr>)) < 2"
    by simp
  from backend_sample_too_short [OF h] h show ?thesis by blast
qed

text \<open>
  C10. The fixed table meets what the two sampling steps need: the SEO list is not empty
  and all its weights are positive, and there are at least two backend phrases. Hence for
  every keyword list and every random source both samplings return a result and the
  composer returns a prompt.
\<close>

theorem load_keywords_sampling_safe:
  "seo_keywords load_keywords \<noteq> [] \<and>
   list_all (\<lambda>e. 0 < weight e) (seo_keywords load_keywords) \<and>
   2 \<le> length (backend_keywords load_keywords) \<and>
   (\<exists>r g'. sample (backend_keywords load_keywords) 2 g = Inr (r, g')) \<and>
   (\<exists>r g'. select_weighted_seo (seo_keywords load_keywords) 2 g = Inr (r, g')) \<and>
   (\<exists>p g'. generate_prompt user_kws load_keywords g = Inr (p, g'))"
proof -
  note pre = load_keywords_pre
  have "\<exists>r g'. sample (backend_keywords load_keywords) 2 g = Inr (r, g')"
    using pre by (intro sample_ok) simp_all
  moreover have "\<exists>r g'. select_weighted_seo (seo_keywords load_keywords) 2 g = Inr (r, g')"
    using pre by (intro select_weighted_seo_ok) simp_all
  moreover have "\<exists>p g'. generate_prompt user_kws load_keywords g = Inr (p, g')"
    using pre by (intro generate_prompt_ok) simp_all
  ultimately show ?thesis using pre by simp
qed

section \<open>Properties of the place lookup and the handlers\<close>

text \<open>
  \<open>strip\<close> on a text that starts with U+00A0 and a space and ends with U+2009 and a
  newline.
\<close>

lemma strip_example:
  "strip ([char_of (194::nat), char_of (160::nat)] @ '' Hi!'' @
          [char_of (226::nat), char_of (128::nat), char_of (137::nat), CHR 0x0A]) = ''Hi!''"
  by code_simp

lemma quote_append: "quote (a @ b) = quote a @ quote b"
  by (simp add: quote_def)

lemma google_search_url_value:
  "google_search_url = ''https://www.google.com/search?q=Hari%20Krushna%20Dal%20Pakwan%2024%2C%20Ambika%20Pinakal%2C%20Lajamni%20Chowk%2C%20Maruti%20Dham%20Society%2C%20Mota%20Varachha%2C%20Surat%2C%20Gujarat%20394101%20write%20review''"
  by (simp add: google_search_url_def quote_def quote_char_def always_safe_def hex_digit_def
      RESTAURANT_NAME_def RESTAURANT_ADDRESS_def)

lemma google_search_url_contains:
  "sublist (quote RESTAURANT_NAME) google_search_url \<and>
   sublist (quote RESTAURANT_ADDRESS) google_search_url"
proof -
  let ?pre = "''https://www.google.com/search?q=''"
  have n: "google_search_url =
      ?pre @ quote RESTAURANT_NAME @ (quote '' '' @ quote RESTAURANT_ADDRESS @ quote '' write review'')"
    by (simp only: google_search_url_def quote_append append_assoc)
  have 1: "sublist (quote RESTAURANT_NAME) google_search_url"
    by (subst n) (rule sublist_appendI)
  have a: "google_search_url =
      (?pre @ quote RESTAURANT_NAME @ quote '' '') @ quote RESTAURANT_ADDRESS @ quote '' write review''"
    by (simp only: google_search_url_def quote_append append_assoc)
  have 2: "sublist (quote RESTAURANT_ADDRESS) google_search_url"
    by (subst a) (rule sublist_appendI)
  from 1 2 show ?thesis ..
qed

lemma get_google_place_id_caught:
  "lookup_body (places env) = Inl e \<Longrightarrow> fst (get_google_place_id env) = JNull"
  by (simp add: get_google_place_id_def split: option.splits)

lemma lookup_body_not_ok:
  "py_get data ''status'' JNull = Inr st \<Longrightarrow> st \<noteq> JStr ''OK'' \<Longrightarrow> lookup_body (Reply data) = Inr JNull"
  by (simp add: lookup_body_def)

lemma lookup_body_no_candidates:
  "py_get data ''candidates'' JNull = Inr c \<Longrightarrow> \<not> truthy c \<Longrightarrow>
   lookup_body (Reply data) = Inr JNull"
  by (cases data) (simp_all add: lookup_body_def)

lemma get_google_place_id_null:
  "lookup_body (places env) = Inr JNull \<Longrightarrow> fst (get_google_place_id env) = JNull"
  by (simp add: get_google_place_id_def split: option.splits)

lemma generate_review_success:
  assumes "py_get data ''selectedKeywords'' (JArr []) = Inr sel" "truthy sel"
    "as_strings sel = Some uks" "generate_prompt uks load_keywords g = Inr (prompt, g')"
    "completion env prompt = Inr contents" "first_content contents = Inr answer"
  shows "generate_review env (Inr data) g =
    (Response 200 (Json (JObj [
        (''review'', JStr (strip answer)),
        (''prompt'', JStr prompt),
        (''restaurant_name'', JStr RESTAURANT_NAME),
        (''restaurant_address'', JStr RESTAURANT_ADDRESS),
        (''place_id'', fst (get_google_place_id env)),
        (''google_review_url'', JStr (google_review_url env (fst (get_google_place_id env))))])),
     TextGeneration prompt # snd (get_google_place_id env))"
  using assms by (cases "get_google_place_id env") (simp add: generate_review_def)

lemma generate_review_invalid_no_calls:
  "py_get data ''selectedKeywords'' (JArr []) = Inl e \<Longrightarrow>
   generate_review env (Inr data) g = (failed e, [])"
  by (simp add: generate_review_def)

lemma generate_review_falsy:
  "py_get data ''selectedKeywords'' (JArr []) = Inr sel \<Longrightarrow> \<not> truthy sel \<Longrightarrow>
   generate_review env (Inr data) g =
     (Response 400 (Json (JObj [(''error'', JStr ''No keywords provided'')])), [])"
  by (simp add: generate_review_def)

lemma generate_review_200:
  "status (fst (generate_review env req g)) = 200 \<Longrightarrow>
   field ''google_review_url'' (fst (generate_review env req g))
     = Some (JStr (google_review_url env (fst (get_google_place_id env))))"
  by (auto simp: generate_review_def failed_def Let_def
      split: sum.splits option.splits prod.splits if_splits)

text \<open>
  A request whose JSON body is an object in which \<open>selectedKeywords\<close> is missing or is
  the empty list is answered 400 and no collaborator is called. A request whose body is
  no object at all, or could not be parsed, calls no collaborator either.
\<close>

theorem generate_review_no_keywords:
  "(map_of kvs ''selectedKeywords'' = None \<or> map_of kvs ''selectedKeywords'' = Some (JArr []) \<longrightarrow>
      generate_review env (Inr (JObj kvs)) g =
        (Response 400 (Json (JObj [(''error'', JStr ''No keywords provided'')])), [])) \<and>
   (py_get data ''selectedKeywords'' (JArr []) = Inl e \<longrightarrow>
      snd (generate_review env (Inr data) g) = []) \<and>
   snd (generate_review env (Inl e) g) = []"
proof (intro conjI impI)
  assume "map_of kvs ''selectedKeywords'' = None \<or> map_of kvs ''selectedKeywords'' = Some (JArr [])"
  then have "py_get (JObj kvs) ''selectedKeywords'' (JArr []) = Inr (JArr [])" by auto
  then show "generate_review env (Inr (JObj kvs)) g =
      (Response 400 (Json (JObj [(''error'', JStr ''No keywords provided'')])), [])"
    by (rule generate_review_falsy) simp
next
  assume "py_get data ''selectedKeywords'' (JArr []) = Inl e"
  then show "snd (generate_review env (Inr data) g) = []"
    by (simp add: generate_review_invalid_no_calls)
next
  show "snd (generate_review env (Inl e) g) = []" by (simp add: generate_review_def)
qed

theorem generate_review_no_keywords_witness:
  "generate_review (example_env match_reply) (Inr (JObj [])) (replay [])
     = (Response 400 (Json (JObj [(''error'', JStr ''No keywords provided'')])), []) \<and>
   generate_review (example_env match_reply) (Inr (JObj [(''selectedKeywords'', JArr [])])) (replay [])
     = (Response 400 (Json (JObj [(''error'', JStr ''No keywords provided'')])), []) \<and>
   snd (generate_review (example_env match_reply) (Inr JNull) (replay [])) = []"
proof -
  have 1: "map_of ([] :: (string \<times> json) list) ''selectedKeywords'' = None" by simp
  have 2: "map_of [(''selectedKeywords'', JArr [])] ''selectedKeywords'' = Some (JArr [])" by simp
  have 3: "py_get JNull ''selectedKeywords'' (JArr []) = Inl AttributeError" by simp
  from generate_review_no_keywords [of "[]" "example_env match_reply" "replay []" JNull AttributeError]
    generate_review_no_keywords [of "[(''selectedKeywords'', JArr [])]" "example_env match_reply" "replay []"
      JNull AttributeError]
    1 2 3
  show ?thesis by blast
qed

text \<open>
  C2. The handler does not answer 400 to every request without keywords. The body \<open>{}\<close>
  gets the validation error, but a body that is JSON \<open>null\<close> has no keyword list either,
  and there \<open>data.get\<close> raises \<open>AttributeError\<close> before the check is reached: the
  handler's \<open>except\<close> answers 500 under the message for a failed generation. No
  collaborator is called in either case.
\<close>

theorem generate_review_null_body:
  "generate_review env (Inr JNull) g
     = (Response 500 (Failure ''Review generation failed: '' AttributeError), []) \<and>
   generate_review env (Inr (JObj [])) g
     = (Response 400 (Json (JObj [(''error'', JStr ''No keywords provided'')])), [])"
  by (simp add: generate_review_def failed_def)

text \<open>
  C3. The place lookup returns \<open>None\<close> whenever the service is unreachable, its answer is
  not JSON, anything raised while the answer was read (a malformed response), the answer
  reports a status other than \<open>OK\<close>, or it carries no candidates. In the review flow the
  lookup cannot abort the request: once the text has been generated the answer is 200, and
  with no identifier the URL is the generic search URL.
\<close>

theorem place_lookup_degrades:
  "fst (get_google_place_id (env\<lparr>places := Unreachable\<rparr>)) = JNull \<and>
   fst (get_google_place_id (env\<lparr>places := NotJson\<rparr>)) = JNull \<and>
   (lookup_body (places env) = Inl e \<longrightarrow> fst (get_google_place_id env) = JNull) \<and>
   (places env = Reply reply \<and> py_get reply ''status'' JNull = Inr st \<and> st \<noteq> JStr ''OK'' \<longrightarrow>
      fst (get_google_place_id env) = JNull) \<and>
   (places env = Reply reply \<and> py_get reply ''candidates'' JNull = Inr c \<and> \<not> truthy c \<longrightarrow>
      fst (get_google_place_id env) = JNull) \<and>
   (py_get data ''selectedKeywords'' (JArr []) = Inr sel \<and> truthy sel \<and> as_strings sel = Some uks \<and>
    generate_prompt uks load_keywords g = Inr (prompt, g') \<and>
    completion env prompt = Inr contents \<and> first_content contents = Inr answer \<longrightarrow>
      status (fst (generate_review env (Inr data) g)) = 200 \<and>
      (\<not> truthy (fst (get_google_place_id env)) \<longrightarrow>
         field ''google_review_url'' (fst (generate_review env (Inr data) g)) = Some (JStr google_search_url)))"
proof (intro conjI impI)
  show "fst (get_google_place_id (env\<lparr>places := Unreachable\<rparr>)) = JNull"
    by (rule get_google_place_id_caught [of _ RequestError]) (simp add: lookup_body_def)
  show "fst (get_google_place_id (env\<lparr>places := NotJson\<rparr>)) = JNull"
    by (rule get_google_place_id_caught [of _ JSONDecodeError]) (simp add: lookup_body_def)
next
  assume "lookup_body (places env) = Inl e"
  then show "fst (get_google_place_id env) = JNull" by (rule get_google_place_id_caught)
next
  assume "places env = Reply reply \<and> py_get reply ''status'' JNull = Inr st \<and> st \<noteq> JStr ''OK''"
  then have "lookup_body (places env) = Inr JNull" by (simp add: lookup_body_not_ok)
  then show "fst (get_google_place_id env) = JNull" by (rule get_google_place_id_null)
next
  assume "places env = Reply reply \<and> py_get reply ''candidates'' JNull = Inr c \<and> \<not> truthy c"
  then have "lookup_body (places env) = Inr JNull" by (simp add: lookup_body_no_candidates)
  then show "fst (get_google_place_id env) = JNull" by (rule get_google_place_id_null)
next
  assume a: "py_get data ''selectedKeywords'' (JArr []) = Inr sel \<and> truthy sel \<and> as_strings sel = Some uks \<and>
    generate_prompt uks load_keywords g = Inr (prompt, g') \<and>
    completion env prompt = Inr contents \<and> first_content contents = Inr answer"
  then have "py_get data ''selectedKeywords'' (JArr []) = Inr sel" "truthy sel"
    "as_strings sel = Some uks" "generate_prompt uks load_keywords g = Inr (prompt, g')"
    "completion env prompt = Inr contents" "first_content contents = Inr answer"
    by simp_all
  then have s: "generate_review env (Inr data) g =
    (Response 200 (Json (JObj [
        (''review'', JStr (strip answer)),
        (''prompt'', JStr prompt),
        (''restaurant_name'', JStr RESTAURANT_NAME),
        (''restaurant_address'', JStr RESTAURANT_ADDRESS),
        (''place_id'', fst (get_google_place_id env)),
        (''google_review_url'', JStr (google_review_url env (fst (get_google_place_id env))))])),
     TextGeneration prompt # snd (get_google_place_id env))"
    by (rule generate_review_success)
  show "status (fst (generate_review env (Inr data) g)) = 200" by (simp add: s)
  assume "\<not> truthy (fst (get_google_place_id env))"
  then show "field ''google_review_url'' (fst (generate_review env (Inr data) g)) = Some (JStr google_search_url)"
    by (simp add: s google_review_url_def)
qed

theorem place_lookup_degrades_witness:
  "fst (get_google_place_id (example_env Unreachable)) = JNull \<and>
   fst (get_google_place_id (example_env (Reply (JArr [])))) = JNull \<and>
   fst (get_google_place_id (example_env no_results_reply)) = JNull \<and>
   status (fst (generate_review (example_env no_results_reply) tasty_request (replay []))) = 200 \<and>
   field ''google_review_url'' (fst (generate_review (example_env no_results_reply) tasty_request (replay [])))
     = Some (JStr google_search_url)"
proof -
  let ?env = "example_env no_results_reply"
  let ?data = "JObj [(''selectedKeywords'', JArr [JStr ''tasty'', JStr ''fresh''])]"
  let ?sel = "JArr [JStr ''tasty'', JStr ''fresh'']"
  let ?text = "''  Loved the crispy dal pakwan!  ''"
  obtain prompt g' where p: "generate_prompt [''tasty'', ''fresh''] load_keywords (replay []) = Inr (prompt, g')"
    using generate_prompt_ok [of load_keywords "[''tasty'', ''fresh'']" "replay []"] load_keywords_pre
    by blast
  have u: "example_env no_results_reply\<lparr>places := Unreachable\<rparr> = example_env Unreachable"
    by (simp add: example_env_def)
  have m: "lookup_body (places (example_env (Reply (JArr [])))) = Inl AttributeError"
    by (simp add: example_env_def lookup_body_def)
  have n: "places ?env = Reply (JObj [(''candidates'', JArr []), (''status'', JStr ''ZERO_RESULTS'')]) \<and>
      py_get (JObj [(''candidates'', JArr []), (''status'', JStr ''ZERO_RESULTS'')]) ''status'' JNull
        = Inr (JStr ''ZERO_RESULTS'') \<and> JStr ''ZERO_RESULTS'' \<noteq> JStr ''OK''"
    by (simp add: example_env_def no_results_reply_def)
  have s: "py_get ?data ''selectedKeywords'' (JArr []) = Inr ?sel \<and> truthy ?sel \<and>
      as_strings ?sel = Some [''tasty'', ''fresh''] \<and>
      generate_prompt [''tasty'', ''fresh''] load_keywords (replay []) = Inr (prompt, g') \<and>
      completion ?env prompt = Inr [Some ?text] \<and> first_content [Some ?text] = Inr ?text"
    using p by (simp add: example_env_def first_content_def)
  note a = place_lookup_degrades [where env = "?env" and reply = "JObj [(''candidates'', JArr []), (''status'', JStr ''ZERO_RESULTS'')]"
      and st = "JStr ''ZERO_RESULTS''" and data = "?data" and sel = "?sel" and uks = "[''tasty'', ''fresh'']"
      and g = "replay []" and prompt = prompt and g' = g' and contents = "[Some ?text]" and answer = "?text"]
  note b = place_lookup_degrades [where env = "example_env (Reply (JArr []))" and e = AttributeError]
  from a n have 1: "fst (get_google_place_id ?env) = JNull" by blast
  from a u have 2: "fst (get_google_place_id (example_env Unreachable)) = JNull" by simp
  from b m have 3: "fst (get_google_place_id (example_env (Reply (JArr [])))) = JNull" by blast
  from a s 1 have 4: "status (fst (generate_review ?env (Inr ?data) (replay []))) = 200 \<and>
      field ''google_review_url'' (fst (generate_review ?env (Inr ?data) (replay []))) = Some (JStr google_search_url)"
    by simp
  from 1 2 3 4 show ?thesis by (simp add: tasty_request_def)
qed

text \<open>
  C4. The answer of \<open>GET /api/restaurant-info\<close>, and every 200 answer of the review
  handler, carries a review-submission URL decided by the lookup: with an identifier it is
  the deep link ending in that identifier, without one it is the generic search URL, in
  which the escaped restaurant name and address occur.
\<close>

theorem review_url_follows_lookup:
  "r = fst (get_restaurant_info env) \<or>
   (r = fst (generate_review env req g) \<and> status r = 200) \<Longrightarrow>
   \<exists>url. field ''google_review_url'' r = Some (JStr url) \<and>
     (if truthy (fst (get_google_place_id env))
      then url = ''https://search.google.com/local/writereview?placeid=''
                 @ py_format env (fst (get_google_place_id env)) \<and>
           sublist (py_format env (fst (get_google_place_id env))) url \<and>
           (\<forall>s. fst (get_google_place_id env) = JStr s \<longrightarrow> sublist s url)
      else url = google_search_url \<and>
           sublist (quote RESTAURANT_NAME) url \<and> sublist (quote RESTAURANT_ADDRESS) url)"
proof -
  let ?pid = "fst (get_google_place_id env)"
  assume a: "r = fst (get_restaurant_info env) \<or> (r = fst (generate_review env req g) \<and> status r = 200)"
  have f: "field ''google_review_url'' r = Some (JStr (google_review_url env ?pid))"
    using a
  proof
    assume "r = fst (get_restaurant_info env)"
    then show ?thesis by (cases "get_google_place_id env") (simp add: get_restaurant_info_def)
  next
    assume "r = fst (generate_review env req g) \<and> status r = 200"
    then show ?thesis using generate_review_200 [of env req g] by auto
  qed
  show ?thesis
  proof (cases "truthy ?pid")
    case True
    then have "google_review_url env ?pid =
        ''https://search.google.com/local/writereview?placeid='' @ py_format env ?pid"
      by (simp add: google_review_url_def)
    moreover have "sublist (py_format env ?pid)
        (''https://search.google.com/local/writereview?placeid='' @ py_format env ?pid)"
      by (rule sublist_append_leftI)
    moreover have "\<forall>s. ?pid = JStr s \<longrightarrow>
        sublist s (''https://search.google.com/local/writereview?placeid='' @ py_format env ?pid)"
    proof (intro allI impI)
      fix s
      assume "?pid = JStr s"
      then have "py_format env ?pid = s" by (simp add: py_format_def)
      then show "sublist s (''https://search.google.com/local/writereview?placeid='' @ py_format env ?pid)"
        by (metis sublist_append_leftI)
    qed
    ultimately show ?thesis using f True by simp
  next
    case False
    then have "google_review_url env ?pid = google_search_url" by (simp add: google_review_url_def)
    then show ?thesis using f False google_search_url_contains by simp
  qed
qed

theorem review_url_follows_lookup_witness:
  "field ''google_review_url'' (fst (get_restaurant_info (example_env match_reply)))
     = Some (JStr ''https://search.google.com/local/writereview?placeid=ChIJN1t_tDeuEmsRUsoyG83frY4'') \<and>
   field ''google_review_url'' (fst (get_restaurant_info (example_env no_results_reply)))
     = Some (JStr google_search_url) \<and>
   status (fst (generate_review (example_env match_reply) tasty_request (replay []))) = 200 \<and>
   field ''google_review_url'' (fst (generate_review (example_env match_reply) tasty_request (replay [])))
     = Some (JStr ''https://search.google.com/local/writereview?placeid=ChIJN1t_tDeuEmsRUsoyG83frY4'')"
proof -
  let ?m = "example_env match_reply" and ?n = "example_env no_results_reply"
  have pm: "fst (get_google_place_id ?m) = JStr ''ChIJN1t_tDeuEmsRUsoyG83frY4''"
    by (simp add: get_google_place_id_def example_env_def match_reply_def lookup_body_def)
  have pn: "fst (get_google_place_id ?n) = JNull"
    by (simp add: get_google_place_id_def example_env_def no_results_reply_def lookup_body_def)
  obtain prompt g' where p: "generate_prompt [''tasty'', ''fresh''] load_keywords (replay []) = Inr (prompt, g')"
    using generate_prompt_ok [of load_keywords "[''tasty'', ''fresh'']" "replay []"] load_keywords_pre
    by blast
  have "generate_review ?m tasty_request (replay []) =
    (Response 200 (Json (JObj [
        (''review'', JStr (strip ''  Loved the crispy dal pakwan!  '')),
        (''prompt'', JStr prompt),
        (''restaurant_name'', JStr RESTAURANT_NAME),
        (''restaurant_address'', JStr RESTAURANT_ADDRESS),
        (''place_id'', fst (get_google_place_id ?m)),
        (''google_review_url'', JStr (google_review_url ?m (fst (get_google_place_id ?m))))])),
     TextGeneration prompt # snd (get_google_place_id ?m))"
    unfolding tasty_request_def
    by (rule generate_review_success [where sel = "JArr [JStr ''tasty'', JStr ''fresh'']"
          and uks = "[''tasty'', ''fresh'']" and g' = g'
          and contents = "[Some ''  Loved the crispy dal pakwan!  '']"])
       (simp_all add: p example_env_def first_content_def)
  then have st: "status (fst (generate_review ?m tasty_request (replay []))) = 200" by simp
  from review_url_follows_lookup [of "fst (get_restaurant_info ?m)" ?m] pm
  have 1: "field ''google_review_url'' (fst (get_restaurant_info ?m))
     = Some (JStr ''https://search.google.com/local/writereview?placeid=ChIJN1t_tDeuEmsRUsoyG83frY4'')"
    by (auto simp: py_format_def)
  from review_url_follows_lookup [of "fst (get_restaurant_info ?n)" ?n] pn
  have 2: "field ''google_review_url'' (fst (get_restaurant_info ?n)) = Some (JStr google_search_url)"
    by auto
  from review_url_follows_lookup [of "fst (generate_review ?m tasty_request (replay []))" ?m
      tasty_request "replay []"] pm st
  have 3: "field ''google_review_url'' (fst (generate_review ?m tasty_request (replay [])))
     = Some (JStr ''https://search.google.com/local/writereview?placeid=ChIJN1t_tDeuEmsRUsoyG83frY4'')"
    by (auto simp: py_format_def)
  from 1 2 3 st show ?thesis by simp
qed

section \<open>Properties of prompt composition on the store\<close>

lemma read_strs_append: "read_strs h a = Inr xs \<Longrightarrow> read_strs (h @ new) a = Inr xs"
  by (auto simp: read_strs_def nth_append split: if_splits)

lemma read_seos_append: "read_seos h a = Inr xs \<Longrightarrow> read_seos (h @ new) a = Inr xs"
  by (auto simp: read_seos_def nth_append split: if_splits)

lemma read_strs_fresh: "read_strs (h @ [StrList xs]) (length h) = Inr xs"
  by (simp add: read_strs_def)

lemma shuffle_at_fresh:
  "shuffle_at (length h) (h @ [StrList xs]) g =
     (Inr (snd (shuffle xs g)), h @ [StrList (fst (shuffle xs g))])"
  by (cases "shuffle xs g") (simp add: shuffle_at_def read_strs_fresh)

lemma generate_prompt_st_take:
  "take (length h) (snd (generate_prompt_st user_at keyword_data h g)) = h"
proof (cases "read_strs h (backend_keywords_at keyword_data)")
  case (Inl e)
  then show ?thesis by (simp add: generate_prompt_st_def)
next
  case population: (Inr population)
  show ?thesis
  proof (cases "sample population 2 g")
    case (Inl e)
    with population show ?thesis by (simp add: generate_prompt_st_def)
  next
    case (Inr r)
    then obtain backend g1 where s: "sample population 2 g = Inr (backend, g1)" by (cases r) simp
    let ?h1 = "h @ [StrList backend]"
    show ?thesis
    proof (cases "read_seos ?h1 (seo_keywords_at keyword_data)")
      case (Inl e)
      with population s show ?thesis by (simp add: generate_prompt_st_def alloc_def)
    next
      case table: (Inr table)
      show ?thesis
      proof (cases "select_weighted_seo table 2 g1")
        case (Inl e)
        with population s table show ?thesis by (simp add: generate_prompt_st_def alloc_def)
      next
        case (Inr r2)
        then obtain seo g2 where w: "select_weighted_seo table 2 g1 = Inr (seo, g2)"
          by (cases r2) simp
        let ?h2 = "?h1 @ [StrList seo]"
        show ?thesis
        proof (cases "read_strs ?h2 user_at")
          case (Inl e)
          with population s table w show ?thesis by (simp add: generate_prompt_st_def alloc_def)
        next
          case user: (Inr user_kws)
          let ?all = "user_kws @ backend @ seo"
          let ?h4 = "?h2 @ [StrList (fst (shuffle ?all g2))]"
          have sh: "shuffle_at (length ?h2) (?h2 @ [StrList ?all]) g2 = (Inr (snd (shuffle ?all g2)), ?h4)"
            by (rule shuffle_at_fresh)
          have rd: "read_strs ?h4 (length ?h2) = Inr (fst (shuffle ?all g2))"
            by (rule read_strs_fresh)
          have "snd (generate_prompt_st user_at keyword_data h g) = ?h4"
            using population s table w user sh rd by (simp add: generate_prompt_st_def alloc_def)
          then show ?thesis by simp
        qed
      qed
    qed
  qed
qed

lemma generate_prompt_st_agrees:
  assumes u: "read_strs h user_at = Inr user_kws"
    and b: "read_strs h (backend_keywords_at keyword_data) = Inr (backend_keywords t)"
    and e: "read_seos h (seo_keywords_at keyword_data) = Inr (seo_keywords t)"
  shows "fst (generate_prompt_st user_at keyword_data h g) = generate_prompt user_kws t g"
proof (cases "sample (backend_keywords t) 2 g")
  case (Inl err)
  with b show ?thesis by (simp add: generate_prompt_st_def generate_prompt_def)
next
  case (Inr r)
  then obtain backend g1 where s: "sample (backend_keywords t) 2 g = Inr (backend, g1)"
    by (cases r) simp
  let ?h1 = "h @ [StrList backend]"
  have e1: "read_seos ?h1 (seo_keywords_at keyword_data) = Inr (seo_keywords t)"
    using e by (rule read_seos_append)
  show ?thesis
  proof (cases "select_weighted_seo (seo_keywords t) 2 g1")
    case (Inl err)
    with b s e1 show ?thesis by (simp add: generate_prompt_st_def generate_prompt_def alloc_def)
  next
    case (Inr r2)
    then obtain seo g2 where w: "select_weighted_seo (seo_keywords t) 2 g1 = Inr (seo, g2)"
      by (cases r2) simp
    let ?h2 = "?h1 @ [StrList seo]"
    have "read_strs ?h1 user_at = Inr user_kws" using u by (rule read_strs_append)
    then have u2: "read_strs ?h2 user_at = Inr user_kws" by (rule read_strs_append)
    let ?all = "user_kws @ backend @ seo"
    let ?h4 = "?h2 @ [StrList (fst (shuffle ?all g2))]"
    have sh: "shuffle_at (length ?h2) (?h2 @ [StrList ?all]) g2 = (Inr (snd (shuffle ?all g2)), ?h4)"
      by (rule shuffle_at_fresh)
    have rd: "read_strs ?h4 (length ?h2) = Inr (fst (shuffle ?all g2))"
      by (rule read_strs_fresh)
    show ?thesis
      using b s e1 w u2 sh rd
      by (cases "shuffle ?all g2") (simp add: generate_prompt_st_def generate_prompt_def alloc_def)
  qed
qed

lemma example_store_reads:
  "read_strs example_store 0 = Inr [''tasty'', ''fresh''] \<and>
   read_strs example_store (backend_keywords_at example_refs) = Inr (backend_keywords load_keywords) \<and>
   read_seos example_store (seo_keywords_at example_refs) = Inr (seo_keywords load_keywords)"
  by (simp add: example_store_def example_refs_def load_keywords_st_def alloc_def
      read_strs_def read_seos_def)

text \<open>
  C8. A call of the composer leaves every list object that existed before the call as it
  was, whatever the arguments refer to and whether or not it raises: the store afterwards
  is the store before, followed by the lists the call built. In particular the caller's
  keyword list and the three lists of the keyword table are unchanged; the shuffle wrote
  into the combined list, which is one of the new objects.
\<close>

theorem generate_prompt_st_frame:
  "(\<exists>fresh. snd (generate_prompt_st user_at keyword_data h g) = h @ fresh) \<and>
   (a < length h \<longrightarrow> snd (generate_prompt_st user_at keyword_data h g) ! a = h ! a)"
proof -
  let ?h' = "snd (generate_prompt_st user_at keyword_data h g)"
  have t: "take (length h) ?h' = h" by (rule generate_prompt_st_take)
  have "?h' = take (length h) ?h' @ drop (length h) ?h'" by simp
  with t have 1: "?h' = h @ drop (length h) ?h'" by simp
  then have "\<exists>fresh. ?h' = h @ fresh" ..
  moreover have "a < length h \<longrightarrow> ?h' ! a = h ! a"
    by (subst 1) (simp add: nth_append)
  ultimately show ?thesis ..
qed

theorem generate_prompt_st_frame_witness:
  "snd (generate_prompt_st 0 example_refs example_store (replay [3, 5, 0, 7, 4, 0, 1, 2, 1])) ! 0
     = StrList [''tasty'', ''fresh''] \<and>
   snd (generate_prompt_st 0 example_refs example_store (replay [3, 5, 0, 7, 4, 0, 1, 2, 1])) ! 2
     = StrList (backend_keywords load_keywords) \<and>
   snd (generate_prompt_st 0 example_refs example_store (replay [3, 5, 0, 7, 4, 0, 1, 2, 1])) ! 3
     = SeoList (seo_keywords load_keywords) \<and>
   isl (fst (generate_prompt_st 0 example_refs example_store (replay [3, 5, 0, 7, 4, 0, 1, 2, 1]))) = False"
proof -
  let ?g = "replay [3, 5, 0, 7, 4, 0, 1, 2, 1]"
  have l: "length example_store = 4"
    by (simp add: example_store_def load_keywords_st_def alloc_def)
  have v: "example_store ! 0 = StrList [''tasty'', ''fresh''] \<and>
      example_store ! 2 = StrList (backend_keywords load_keywords) \<and>
      example_store ! 3 = SeoList (seo_keywords load_keywords)"
    by (simp add: example_store_def load_keywords_st_def alloc_def)
  obtain p g' where "generate_prompt [''tasty'', ''fresh''] load_keywords ?g = Inr (p, g')"
    using generate_prompt_ok [of load_keywords "[''tasty'', ''fresh'']" ?g] load_keywords_pre by blast
  moreover have "fst (generate_prompt_st 0 example_refs example_store ?g)
      = generate_prompt [''tasty'', ''fresh''] load_keywords ?g"
    using example_store_reads by (intro generate_prompt_st_agrees) simp_all
  ultimately have r: "isl (fst (generate_prompt_st 0 example_refs example_store ?g)) = False" by simp
  from generate_prompt_st_frame [of 0 example_refs example_store ?g 0]
    generate_prompt_st_frame [of 0 example_refs example_store ?g 2]
    generate_prompt_st_frame [of 0 example_refs example_store ?g 3] l v r
  show ?thesis by simp
qed

section \<open>Properties of the process\<close>

lemma load_keywords_st_parts:
  "read_strs (snd (load_keywords_st h)) (user_keywords_at (fst (load_keywords_st h)))
     = Inr (user_keywords load_keywords) \<and>
   read_strs (snd (load_keywords_st h)) (backend_keywords_at (fst (load_keywords_st h)))
     = Inr (backend_keywords load_keywords) \<and>
   read_seos (snd (load_keywords_st h)) (seo_keywords_at (fst (load_keywords_st h)))
     = Inr (seo_keywords load_keywords)"
  by (simp add: load_keywords_st_def alloc_def read_strs_def read_seos_def nth_append)

lemma load_keywords_st_reads:
  "read_table (snd (load_keywords_st h)) (fst (load_keywords_st h)) = Inr load_keywords"
  using load_keywords_st_parts [of h] by (simp add: read_table_def)

lemma get_keywords_st_response:
  "fst (get_keywords_st h) = (Response 200 (Json (keywords_json load_keywords)), [])"
  using load_keywords_st_reads [of h]
  by (cases "load_keywords_st h") (simp add: get_keywords_st_def)

lemma run_nth:
  "i < length arrivals \<Longrightarrow>
   \<exists>h'. fst (run arrivals h) ! i =
     fst (serve_st (fst (arrivals ! i)) (fst (snd (arrivals ! i))) (snd (snd (arrivals ! i))) h')"
proof (induction arrivals arbitrary: i h)
  case Nil
  then show ?case by simp
next
  case (Cons a rest)
  obtain env g req where a: "a = (env, g, req)" by (cases a)
  obtain r h1 where s: "serve_st env g req h = (r, h1)" by (cases "serve_st env g req h")
  obtain rs h2 where t: "run rest h1 = (rs, h2)" by (cases "run rest h1")
  show ?case
  proof (cases i)
    case 0
    with a s t show ?thesis by (auto intro: exI [of _ h])
  next
    case (Suc k)
    with Cons.prems have "k < length rest" by simp
    from Cons.IH [OF this, of h1] obtain h' where
      "fst (run rest h1) ! k =
        fst (serve_st (fst (rest ! k)) (fst (snd (rest ! k))) (snd (snd (rest ! k))) h')" ..
    with a s t Suc show ?thesis by auto
  qed
qed

lemma length_run: "length (fst (run arrivals h)) = length arrivals"
proof (induction arrivals arbitrary: h)
  case Nil
  then show ?case by simp
next
  case (Cons a rest)
  obtain env g req where a: "a = (env, g, req)" by (cases a)
  obtain r h1 where s: "serve_st env g req h = (r, h1)" by (cases "serve_st env g req h")
  obtain rs h2 where t: "run rest h1 = (rs, h2)" by (cases "run rest h1")
  from Cons.IH [of h1] t have "length rs = length rest" by simp
  with a s t show ?case by simp
qed

lemma generate_review_st_agrees:
  "fst (generate_review_st env req g h) = generate_review env req g"
proof (cases req)
  case (Inl e)
  then show ?thesis by (simp add: generate_review_st_def generate_review_def)
next
  case (Inr data)
  show ?thesis
  proof (cases "py_get data ''selectedKeywords'' (JArr [])")
    case (Inl e)
    with Inr show ?thesis by (simp add: generate_review_st_def generate_review_def)
  next
    case sel: (Inr selected)
    show ?thesis
    proof (cases "truthy selected")
      case False
      with Inr sel show ?thesis by (simp add: generate_review_st_def generate_review_def)
    next
      case True
      obtain kws h1 where l: "load_keywords_st h = (kws, h1)" by (cases "load_keywords_st h")
      show ?thesis
      proof (cases "as_strings selected")
        case None
        with Inr sel True l show ?thesis by (simp add: generate_review_st_def generate_review_def)
      next
        case (Some user_kws)
        let ?h2 = "h1 @ [StrList user_kws]"
        have b: "read_strs h1 (backend_keywords_at kws) = Inr (backend_keywords load_keywords)"
          and s: "read_seos h1 (seo_keywords_at kws) = Inr (seo_keywords load_keywords)"
          using load_keywords_st_parts [of h] l by simp_all
        have "fst (generate_prompt_st (length h1) kws ?h2 g) = generate_prompt user_kws load_keywords g"
          by (intro generate_prompt_st_agrees read_strs_fresh read_strs_append read_seos_append b s)
        then show ?thesis
          using Inr sel True l Some
          by (cases "generate_prompt_st (length h1) kws ?h2 g")
             (auto simp: generate_review_st_def generate_review_def alloc_def Let_def
               split: sum.splits prod.splits)
      qed
    qed
  qed
qed

lemma get_keywords_st_agrees: "fst (get_keywords_st h) = get_keywords"
  by (simp add: get_keywords_st_response get_keywords_def)

text \<open>
  C9. Within one process lifetime every answer to \<open>GET /api/keywords\<close> is the same: for
  any store the process starts with and any requests served before and between, each with
  its own environment and random draws, two such answers are equal, and they are the
  fixed table with its three lists, entries, weights and order. Every call builds the
  lists anew and reads them back, so nothing an earlier request left in the store reaches
  the answer. Equal values serialise to equal bytes.
\<close>

theorem get_keywords_idempotent:
  "i < length arrivals \<Longrightarrow> j < length arrivals \<Longrightarrow>
   snd (snd (arrivals ! i)) = GetKeywords \<Longrightarrow> snd (snd (arrivals ! j)) = GetKeywords \<Longrightarrow>
   fst (run arrivals h) ! i = fst (run arrivals h) ! j \<and>
   fst (run arrivals h) ! i = (Response 200 (Json (keywords_json load_keywords)), [])"
proof -
  assume i: "i < length arrivals" and j: "j < length arrivals"
    and ri: "snd (snd (arrivals ! i)) = GetKeywords" and rj: "snd (snd (arrivals ! j)) = GetKeywords"
  from run_nth [OF i, of h] ri obtain hi where
    "fst (run arrivals h) ! i = fst (get_keywords_st hi)" by auto
  then have 1: "fst (run arrivals h) ! i = (Response 200 (Json (keywords_json load_keywords)), [])"
    by (simp add: get_keywords_st_response)
  from run_nth [OF j, of h] rj obtain hj where
    "fst (run arrivals h) ! j = fst (get_keywords_st hj)" by auto
  then have 2: "fst (run arrivals h) ! j = (Response 200 (Json (keywords_json load_keywords)), [])"
    by (simp add: get_keywords_st_response)
  from 1 2 show ?thesis by simp
qed

theorem get_keywords_idempotent_witness:
  "fst (run [(example_env match_reply, replay [], GetKeywords),
             (example_env no_results_reply, replay [3, 5, 0, 7, 4, 0, 1, 2, 1],
                PostGenerateReview tasty_request),
             (example_env Unreachable, replay [1], GetKeywords)] example_store) ! 0
   = fst (run [(example_env match_reply, replay [], GetKeywords),
               (example_env no_results_reply, replay [3, 5, 0, 7, 4, 0, 1, 2, 1],
                  PostGenerateReview tasty_request),
               (example_env Unreachable, replay [1], GetKeywords)] example_store) ! 2"
proof -
  let ?a = "[(example_env match_reply, replay [], GetKeywords),
             (example_env no_results_reply, replay [3, 5, 0, 7, 4, 0, 1, 2, 1],
                PostGenerateReview tasty_request),
             (example_env Unreachable, replay [1], GetKeywords)]"
  have "0 < length ?a" "2 < length ?a" "snd (snd (?a ! 0)) = GetKeywords"
    "snd (snd (?a ! 2)) = GetKeywords" by simp_all
  from get_keywords_idempotent [OF this, of example_store] show ?thesis by simp
qed

end
